theory Spec2Isabelle
  imports Complex_Main
begin

section \<open>Values and failures\<close>

text \<open>
  The sources compute on Python floats. A float is read here as the real number it
  stands for, so every formula is the exact one; where a float computation leaves the
  reals or raises, the model returns a failure instead of a number:
  \<^item> \<open>KeyError k\<close>: a dictionary has no entry \<open>k\<close>;
  \<^item> \<open>ZeroDivisionError\<close>: a division by zero;
  \<^item> \<open>NonReal\<close>: the result is no real number (Python's \<open>**\<close> gives a complex
    number for a negative base under a fractional power, numpy and numba give NaN);
  \<^item> \<open>ValueError msg\<close>: raised by the code itself.
\<close>

datatype py_error = KeyError string | ZeroDivisionError | NonReal | ValueError string

definition and_then :: "py_error + 'a \<Rightarrow> ('a \<Rightarrow> py_error + 'b) \<Rightarrow> py_error + 'b" where
  "and_then r f = (case r of Inl e \<Rightarrow> Inl e | Inr x \<Rightarrow> f x)"

text \<open>
  Python's \<open>x ** y\<close> on floats: a positive base has every real power; zero has the
  powers \<open>0 ** 0 = 1\<close> and \<open>0 ** y = 0\<close> for positive \<open>y\<close> and raises for negative
  \<open>y\<close>; a negative base has a real power only for an integer-valued exponent.
\<close>

definition float_pow :: "real \<Rightarrow> real \<Rightarrow> py_error + real" where
  "float_pow x y =
     (if 0 < x then Inr (x powr y)
      else if x = 0 then
        (if y = 0 then Inr 1 else if 0 < y then Inr 0 else Inl ZeroDivisionError)
      else if y = of_int \<lfloor>y\<rfloor> then
        Inr (if 0 \<le> y then x ^ nat \<lfloor>y\<rfloor> else 1 / x ^ nat (- \<lfloor>y\<rfloor>))
      else Inl NonReal)"

section \<open>Helpers of the repository that the ladder code calls\<close>

text \<open>
  Modelled from the spec: \<open>bps_to_decimal\<close> of the base class \<open>QuoteGenerator\<close> is not
  among the sources. The spec reads it as \<open>min_spread = minimum_spread_bps / 10000\<close>.
\<close>

definition bps_to_decimal :: "real \<Rightarrow> real" where
  "bps_to_decimal bps = bps / 10000"

text \<open>
  Modelled from the spec: \<open>nbclip\<close> of \<open>frameworks.tools.numba\<close> is not among the
  sources. The spec reads \<open>clip(x, lo, hi)\<close> as clamping \<open>x\<close> into \<open>[lo, hi]\<close>, a value
  above the ceiling being pulled down to the ceiling.
\<close>

definition nbclip :: "real \<Rightarrow> real \<Rightarrow> real \<Rightarrow> real" where
  "nbclip val lo hi = min (max val lo) hi"

section \<open>The quote generator's view of the shared state\<close>

text \<open>
  \<open>PlainQuoteGenerator\<close> reads \<open>params\<close>, \<open>mid\<close>, \<open>inventory_delta\<close>, \<open>tick_size\<close>,
  \<open>lot_size\<close>, \<open>total_orders\<close> and \<open>max_position\<close> through \<open>self\<close>. \<open>params\<close> is a
  dictionary; \<open>total_orders\<close> is a count.
\<close>

record quote_generator =
  params :: "string \<rightharpoonup> real"
  mid :: real
  inventory_delta :: real
  tick_size :: real
  lot_size :: real
  total_orders :: nat
  max_position :: real

definition param :: "quote_generator \<Rightarrow> string \<Rightarrow> py_error + real" where
  "param g k = (case params g k of None \<Rightarrow> Inl (KeyError k) | Some v \<Rightarrow> Inr v)"

section \<open>Skew and spread correction (plain.py)\<close>

definition corrected_skew :: "quote_generator \<Rightarrow> real \<Rightarrow> py_error + real" where
  "corrected_skew g skew =
     and_then (float_pow (inventory_delta g) 2.0) (\<lambda>corrective_amount.
       Inr (skew + (if inventory_delta g < 0.0 then corrective_amount
                    else - corrective_amount)))"

definition corrected_spread :: "quote_generator \<Rightarrow> real \<Rightarrow> py_error + real" where
  "corrected_spread g spread =
     and_then (param g ''minimum_spread'') (\<lambda>bps.
       let min_spread = bps_to_decimal bps in
       if spread < min_spread then Inr min_spread
       else Inr (nbclip spread spread (min_spread * 5)))"

text \<open>The geometric size ratio of both ladder branches (lines 144 and 197).\<close>

definition clipped_r :: "real \<Rightarrow> real" where
  "clipped_r skew = 0.5 + nbclip skew 0.0 0.5"

section \<open>The ladder (plain.py)\<close>

text \<open>
  A quote, with the field names of the keyword arguments \<open>prepare_orders\<close> passes
  (\<open>size_q\<close> for \<open>size\<close>). The code passes the side as \<open>0.0\<close> for a bid and \<open>1.0\<close>
  for an ask, and the order type as \<open>0.0\<close>.
\<close>

record quote =
  side :: real
  orderType :: real
  price :: real
  size_q :: real

text \<open>
  Modelled from the spec: \<open>generate_single_quote\<close> of the base class \<open>QuoteGenerator\<close>
  is not among the sources. The spec's Quote is \<open>{side, order_type, price, size}\<close>: the
  four arguments, kept as they are passed.
\<close>

definition generate_single_quote :: "real \<Rightarrow> real \<Rightarrow> real \<Rightarrow> real \<Rightarrow> quote" where
  "generate_single_quote s t p q = \<lparr>side = s, orderType = t, price = p, size_q = q\<rparr>"

text \<open>
  Modelled from the spec: \<open>round_floor\<close> and \<open>round_ceil\<close> of
  \<open>frameworks.tools.trading.rounding\<close> are not among the sources. The spec has a price
  or size rounded to its step size, toward the floor or toward the ceiling: the
  nearest multiple of the step below or above. A step of zero divides by zero.
\<close>

definition round_floor :: "real \<Rightarrow> real \<Rightarrow> py_error + real" where
  "round_floor num step_size =
     (if step_size = 0 then Inl ZeroDivisionError
      else Inr (of_int \<lfloor>num / step_size\<rfloor> * step_size))"

definition round_ceil :: "real \<Rightarrow> real \<Rightarrow> py_error + real" where
  "round_ceil num step_size =
     (if step_size = 0 then Inl ZeroDivisionError
      else Inr (of_int \<lceil>num / step_size\<rceil> * step_size))"

text \<open>
  Modelled from the spec: \<open>nbgeomspace\<close> of \<open>frameworks.tools.numba\<close> is not among the
  sources. The spec has \<open>n\<close> prices geometrically spaced from \<open>start\<close> to \<open>stop\<close>
  (\<open>end\<close> in the code): successive prices in a constant ratio, the first \<open>start\<close>,
  the last \<open>stop\<close>; a single price is \<open>start\<close>. Geometric spacing is between
  positive prices; from or to a price that is not positive there is no real ladder.
\<close>

definition nbgeomspace :: "real \<Rightarrow> real \<Rightarrow> nat \<Rightarrow> py_error + real list" where
  "nbgeomspace start stop n =
     (if start \<le> 0 \<or> stop \<le> 0 then Inl NonReal
      else if n = 1 then Inr [start]
      else Inr (map (\<lambda>i. start * (stop / start) powr (real i / real (n - 1))) [0..<n]))"

text \<open>
  Modelled from the spec: \<open>generate_geometric_weights\<close> of
  \<open>frameworks.tools.trading.weights\<close> is not among the sources. The spec has \<open>num\<close>
  weight shares following the fixed ratio \<open>r\<close>, reversed on request. The theorems
  below use only how many weights there are.
\<close>

definition generate_geometric_weights :: "nat \<Rightarrow> real \<Rightarrow> bool \<Rightarrow> real list" where
  "generate_geometric_weights num r reverse =
     (let weights = map (\<lambda>i. r ^ i) [0..<num];
          normalized = map (\<lambda>w. w / sum_list weights) weights
      in if reverse then rev normalized else normalized)"

text \<open>
  The loop of \<open>prepare_orders\<close> over the zipped arrays, \<open>orders\<close> being the list built
  so far: each level appends its bid, then its ask.
\<close>

fun prepare_orders_loop ::
  "quote_generator \<Rightarrow> (real \<times> real \<times> real \<times> real) list \<Rightarrow> quote list
     \<Rightarrow> py_error + quote list" where
  "prepare_orders_loop g [] orders = Inr orders"
| "prepare_orders_loop g ((bid_price, bid_size, ask_price, ask_size) # rest) orders =
     and_then (round_floor bid_price (tick_size g)) (\<lambda>bp.
     and_then (round_ceil bid_size (lot_size g)) (\<lambda>bs.
     and_then (round_ceil ask_price (tick_size g)) (\<lambda>ap.
     and_then (round_ceil ask_size (lot_size g)) (\<lambda>as.
       prepare_orders_loop g rest
         (orders @ [generate_single_quote 0.0 0.0 bp bs,
                    generate_single_quote 1.0 0.0 ap as])))))"

definition prepare_orders ::
  "quote_generator \<Rightarrow> real list \<Rightarrow> real list \<Rightarrow> real list \<Rightarrow> real list
     \<Rightarrow> py_error + quote list" where
  "prepare_orders g bid_prices bid_sizes ask_prices ask_sizes =
     prepare_orders_loop g (zip bid_prices (zip bid_sizes (zip ask_prices ask_sizes))) []"

text \<open>
  Line 127 and line 180, the same in both branches:
  \<open>aggressiveness = self.params["aggressiveness"] * (skew ** 0.5)\<close>.
\<close>

definition aggressiveness :: "quote_generator \<Rightarrow> real \<Rightarrow> py_error + real" where
  "aggressiveness g skew =
     and_then (param g ''aggressiveness'') (\<lambda>a.
     and_then (float_pow skew 0.5) (\<lambda>root. Inr (a * root)))"

text \<open>Lines 126 to 130 and lines 179 to 183: the best bid and the best ask.\<close>

definition positive_best_prices :: "quote_generator \<Rightarrow> real \<Rightarrow> real \<Rightarrow> real \<times> real" where
  "positive_best_prices g spread aggr =
     (let half_spread = spread / 2;
          best_bid_price = mid g - (half_spread * (1.0 - aggr));
          best_ask_price = best_bid_price + spread
      in (best_bid_price, best_ask_price))"

definition negative_best_prices :: "quote_generator \<Rightarrow> real \<Rightarrow> real \<Rightarrow> real \<times> real" where
  "negative_best_prices g spread aggr =
     (let half_spread = spread / 2;
          best_ask_price = mid g + (half_spread * (1.0 - aggr));
          best_bid_price = best_ask_price - spread
      in (best_bid_price, best_ask_price))"

text \<open>
  The second size ratio, \<open>0.5 + (clipped_r ** (2 + aggressiveness))\<close>: the ask side's
  on line 154, the bid side's on line 201.
\<close>

definition powered_r :: "real \<Rightarrow> real \<Rightarrow> py_error + real" where
  "powered_r r aggr = and_then (float_pow r (2 + aggr)) (\<lambda>p. Inr (0.5 + p))"

definition generate_positive_skew_quotes ::
  "quote_generator \<Rightarrow> real \<Rightarrow> real \<Rightarrow> py_error + quote list" where
  "generate_positive_skew_quotes g skew spread =
     and_then (aggressiveness g skew) (\<lambda>aggr.
     case positive_best_prices g spread aggr of (best_bid_price, best_ask_price) \<Rightarrow>
     and_then (float_pow spread 1.5) (\<lambda>bid_width.
     and_then (nbgeomspace best_bid_price (best_bid_price - bid_width)
                 (total_orders g div 2)) (\<lambda>bid_prices.
     and_then (float_pow spread 1.5) (\<lambda>ask_width.
     and_then (nbgeomspace best_ask_price (best_ask_price + ask_width)
                 (total_orders g div 2)) (\<lambda>ask_prices.
     let r = clipped_r skew;
         bid_sizes = map (\<lambda>w. max_position g * w)
                       (generate_geometric_weights (total_orders g div 2) r True)
     in
     and_then (powered_r r aggr) (\<lambda>ask_r.
     let ask_sizes = map (\<lambda>w. max_position g * w)
                       (generate_geometric_weights (total_orders g div 2) ask_r True)
     in prepare_orders g bid_prices bid_sizes ask_prices ask_sizes))))))"

definition generate_negative_skew_quotes ::
  "quote_generator \<Rightarrow> real \<Rightarrow> real \<Rightarrow> py_error + quote list" where
  "generate_negative_skew_quotes g skew spread =
     and_then (aggressiveness g skew) (\<lambda>aggr.
     case negative_best_prices g spread aggr of (best_bid_price, best_ask_price) \<Rightarrow>
     and_then (float_pow spread 1.5) (\<lambda>bid_width.
     and_then (nbgeomspace best_bid_price (best_bid_price - bid_width)
                 (total_orders g div 2)) (\<lambda>bid_prices.
     and_then (float_pow spread 1.5) (\<lambda>ask_width.
     and_then (nbgeomspace best_ask_price (best_ask_price + ask_width)
                 (total_orders g div 2)) (\<lambda>ask_prices.
     let r = clipped_r skew in
     and_then (powered_r r aggr) (\<lambda>bid_r.
     let bid_sizes = map (\<lambda>w. max_position g * w)
                       (generate_geometric_weights (total_orders g div 2) bid_r True);
         ask_sizes = map (\<lambda>w. max_position g * w)
                       (generate_geometric_weights (total_orders g div 2) r True)
     in prepare_orders g bid_prices bid_sizes ask_prices ask_sizes))))))"

text \<open>
  A real skew passes one of the two tests of \<open>generate_quotes\<close>; only a NaN passes
  neither.
\<close>

definition generate_quotes :: "quote_generator \<Rightarrow> real \<Rightarrow> real \<Rightarrow> py_error + quote list" where
  "generate_quotes g skew spread =
     (if skew > 0.0 then generate_positive_skew_quotes g skew spread
      else if skew \<le> 0.0 then generate_negative_skew_quotes g skew spread
      else Inl NonReal)"

text \<open>
  What one pass of the loop appends when both step sizes are not zero: the bid and
  the ask of one level, rounded.
\<close>

definition level_quotes :: "quote_generator \<Rightarrow> real \<times> real \<times> real \<times> real \<Rightarrow> quote list" where
  "level_quotes g z =
     (case z of (bid_price, bid_size, ask_price, ask_size) \<Rightarrow>
        [generate_single_quote 0 0
           (of_int \<lfloor>bid_price / tick_size g\<rfloor> * tick_size g)
           (of_int \<lceil>bid_size / lot_size g\<rceil> * lot_size g),
         generate_single_quote 1 0
           (of_int \<lceil>ask_price / tick_size g\<rceil> * tick_size g)
           (of_int \<lceil>ask_size / lot_size g\<rceil> * lot_size g)])"

section \<open>Best bid/ask imbalance (bba\_imbalance.py)\<close>

definition bba_imbalance :: "real \<Rightarrow> real \<Rightarrow> py_error + real" where
  "bba_imbalance bid ask =
     (if ask + bid = 0 then Inl ZeroDivisionError
      else Inr (((bid / (ask + bid)) - 0.5) * 2))"

section \<open>The strategy loop (marketmaker.py)\<close>

text \<open>
  What one poll of \<open>wait_for_ws_warmup\<close> reads of \<open>self.ss.data\<close>: the lengths of the
  \<open>trades\<close> and \<open>ohlcv\<close> collections, the number of items of \<open>ticker\<close>, and the two
  step sizes. The checks of one poll run without an \<open>await\<close> between them, so a poll
  reads one snapshot.
\<close>

record market_data =
  trades :: nat
  ohlcv :: nat
  ticker :: nat
  data_tick_size :: real
  data_lot_size :: real

text \<open>
  The loop of \<open>wait_for_ws_warmup\<close> over the snapshots its polls read, the first poll's
  first. It sleeps once before every poll; the result is the number of sleeps when it
  reaches \<open>break\<close>, and \<open>None\<close> when every poll of the list ends in \<open>continue\<close> (the
  loop is still waiting).
\<close>

fun wait_for_ws_warmup :: "market_data list \<Rightarrow> nat option" where
  "wait_for_ws_warmup [] = None"
| "wait_for_ws_warmup (d # later) =
     (if trades d < 100 then map_option Suc (wait_for_ws_warmup later)
      else if ohlcv d < 100 then map_option Suc (wait_for_ws_warmup later)
      else if ticker d = 0 then map_option Suc (wait_for_ws_warmup later)
      else if (data_tick_size d, data_lot_size d) = (0.0, 0.0) then
        map_option Suc (wait_for_ws_warmup later)
      else Some 1)"

text \<open>A poll that reaches \<open>break\<close>: none of the four \<open>continue\<close> guards fires.\<close>

definition reaches_break :: "market_data \<Rightarrow> bool" where
  "reaches_break d =
     (\<not> trades d < 100 \<and> \<not> ohlcv d < 100 \<and> \<not> ticker d = 0
      \<and> \<not> (data_tick_size d, data_lot_size d) = (0.0, 0.0))"

text \<open>\<open>str.lower\<close> on ASCII text: the letters A to Z change, nothing else does.\<close>

definition lower_char :: "char \<Rightarrow> char" where
  "lower_char c =
     (case map_of (zip ''ABCDEFGHIJKLMNOPQRSTUVWXYZ'' ''abcdefghijklmnopqrstuvwxyz'') c of
        None \<Rightarrow> c | Some l \<Rightarrow> l)"

definition lower :: "string \<Rightarrow> string" where
  "lower s = map lower_char s"

text \<open>
  The two generator classes \<open>load_quote_generator\<close> can build (their modules are taken
  to import). The function takes the configured name \<open>self.ss.quote_generator\<close> and
  returns the lines it logs with what it returns or raises.
\<close>

datatype generator = PlainQuoteGenerator | StinkyQuoteGenerator

definition load_quote_generator :: "string \<Rightarrow> string list \<times> (py_error + generator)" where
  "load_quote_generator name =
     (let quote_gen_name = lower name;
          log = [''Attempting to load quote generator: '' @ quote_gen_name] in
      if quote_gen_name = ''plain'' then (log, Inr PlainQuoteGenerator)
      else if quote_gen_name = ''stinky'' then (log, Inr StinkyQuoteGenerator)
      else (log @ [''Invalid quote generator, double check available options!''],
            Inl (ValueError (''Invalid quote generator: '' @ quote_gen_name))))"

section \<open>Facts about the helpers\<close>

lemma float_pow_square: "float_pow x 2 = Inr (x\<^sup>2)"
proof -
  have two: "(2::real) = of_int \<lfloor>2::real\<rfloor>" by simp
  show ?thesis
  proof (cases "0 < x")
    case True
    then show ?thesis by (simp add: float_pow_def)
  next
    case False
    then show ?thesis using two by (simp add: float_pow_def)
  qed
qed

section \<open>Skew correction\<close>

text \<open>
  Claim C6. For every inventory delta \<open>d\<close> (in particular every \<open>d\<close> in \<open>[-1, 1]\<close>) and
  every skew \<open>s\<close>, \<open>corrected_skew\<close> raises nothing and returns \<open>s - d\<^sup>2\<close> when
  \<open>d \<ge> 0\<close> and \<open>s + d\<^sup>2\<close> when \<open>d < 0\<close>; with \<open>d = 0\<close> it returns \<open>s\<close>.
\<close>

theorem corrected_skew_shift:
  "corrected_skew g s =
     Inr (if 0 \<le> inventory_delta g then s - (inventory_delta g)\<^sup>2
          else s + (inventory_delta g)\<^sup>2)
   \<and> corrected_skew (g\<lparr>inventory_delta := 0\<rparr>) s = Inr s"
  by (simp add: corrected_skew_def float_pow_square and_then_def)

section \<open>Spread correction\<close>

text \<open>
  Claim C1. With \<open>min_spread = minimum_spread / 10000\<close>: a spread below \<open>min_spread\<close>
  is returned as \<open>min_spread\<close>; a spread in \<open>[min_spread, 5 * min_spread]\<close> is returned
  unchanged; a spread above \<open>5 * min_spread\<close> is returned as \<open>5 * min_spread\<close>. The
  three cases of the claim overlap for a negative \<open>minimum_spread\<close> (a spread between
  \<open>5 * min_spread\<close> and \<open>min_spread\<close> is in the first and the third), so the third is
  stated for the spreads the first does not take, which is every spread above
  \<open>5 * min_spread\<close> once \<open>minimum_spread\<close> is not negative.
\<close>

theorem corrected_spread_cases:
  assumes "params g ''minimum_spread'' = Some bps"
  shows "(s < bps / 10000 \<longrightarrow> corrected_spread g s = Inr (bps / 10000))
       \<and> (bps / 10000 \<le> s \<and> s \<le> 5 * (bps / 10000) \<longrightarrow> corrected_spread g s = Inr s)
       \<and> (0 \<le> bps \<and> 5 * (bps / 10000) < s \<longrightarrow>
            corrected_spread g s = Inr (5 * (bps / 10000)))
       \<and> (bps / 10000 \<le> s \<and> 5 * (bps / 10000) < s \<longrightarrow>
            corrected_spread g s = Inr (5 * (bps / 10000)))"
  using assms
  by (auto simp: corrected_spread_def param_def and_then_def bps_to_decimal_def nbclip_def
      Let_def)

theorem corrected_spread_cases_witness:
  "corrected_spread \<lparr>params = [''minimum_spread'' \<mapsto> 5], mid = 100, inventory_delta = 0,
      tick_size = 1 / 100, lot_size = 1 / 1000, total_orders = 4, max_position = 10\<rparr>
      (1 / 10000) = Inr (5 / 10000)
   \<and> corrected_spread \<lparr>params = [''minimum_spread'' \<mapsto> 5], mid = 100, inventory_delta = 0,
      tick_size = 1 / 100, lot_size = 1 / 1000, total_orders = 4, max_position = 10\<rparr>
      (1 / 1000) = Inr (1 / 1000)
   \<and> corrected_spread \<lparr>params = [''minimum_spread'' \<mapsto> 5], mid = 100, inventory_delta = 0,
      tick_size = 1 / 100, lot_size = 1 / 1000, total_orders = 4, max_position = 10\<rparr>
      1 = Inr (25 / 10000)"
  using corrected_spread_cases [of "\<lparr>params = [''minimum_spread'' \<mapsto> 5], mid = 100,
      inventory_delta = 0, tick_size = 1 / 100, lot_size = 1 / 1000, total_orders = 4,
      max_position = 10\<rparr>" 5 "1 / 10000"]
    corrected_spread_cases [of "\<lparr>params = [''minimum_spread'' \<mapsto> 5], mid = 100,
      inventory_delta = 0, tick_size = 1 / 100, lot_size = 1 / 1000, total_orders = 4,
      max_position = 10\<rparr>" 5 "1 / 1000"]
    corrected_spread_cases [of "\<lparr>params = [''minimum_spread'' \<mapsto> 5], mid = 100,
      inventory_delta = 0, tick_size = 1 / 100, lot_size = 1 / 1000, total_orders = 4,
      max_position = 10\<rparr>" 5 1]
  by simp

section \<open>The geometric size ratio\<close>

text \<open>
  Claim C4, as the code has it. The ratio \<open>r = 0.5 + clip(skew, 0, 0.5)\<close> lies in the
  closed interval \<open>[0.5, 1]\<close>: it is below 1 exactly for a skew below 0.5 and is 1 for
  every skew from 0.5 on (the positive branch). For a skew that is not positive (the
  negative branch) it is 0.5.
\<close>

theorem clipped_r_range:
  "1 / 2 \<le> clipped_r skew \<and> clipped_r skew \<le> 1
   \<and> (clipped_r skew < 1) = (skew < 1 / 2)
   \<and> clipped_r (min skew 0) = 1 / 2"
  by (auto simp: clipped_r_def nbclip_def min_def max_def)

text \<open>The ratio reaches 1 at the skew 0.5, against the claim as the spec words it.\<close>

theorem clipped_r_reaches_one: "clipped_r (1 / 2) = 1 \<and> \<not> clipped_r (1 / 2) < 1"
  by (simp add: clipped_r_def nbclip_def)

section \<open>Best bid/ask imbalance\<close>

text \<open>
  Claim C10. For positive \<open>bid\<close> and \<open>ask\<close>, \<open>bba_imbalance\<close> returns a value strictly
  between -1 and 1, which is 0 exactly when \<open>bid = ask\<close>, and swapping the arguments
  negates it.
\<close>

theorem bba_imbalance_bounds:
  assumes "0 < bid" and "0 < ask"
  shows "\<exists>v. bba_imbalance bid ask = Inr v \<and> - 1 < v \<and> v < 1
           \<and> (v = 0) = (bid = ask) \<and> bba_imbalance ask bid = Inr (- v)"
proof -
  let ?t = "ask + bid"
  have pos: "0 < ?t" using assms by simp
  define v where "v = ((bid / ?t) - 0.5) * 2"
  have v_eq: "v = (bid - ask) / ?t"
    using pos by (simp add: v_def field_simps)
  have r1: "bba_imbalance bid ask = Inr v"
    using pos by (simp add: bba_imbalance_def v_def)
  have "((ask / (bid + ask)) - 0.5) * 2 = (ask - bid) / ?t"
    using pos by (simp add: field_simps)
  then have r2: "bba_imbalance ask bid = Inr (- v)"
    using pos by (simp add: bba_imbalance_def v_eq add.commute minus_divide_left)
  have lo: "- 1 < v" using pos assms by (simp add: v_eq field_simps)
  have hi: "v < 1" using pos assms by (simp add: v_eq field_simps)
  have z: "(v = 0) = (bid = ask)" using pos by (simp add: v_eq)
  show ?thesis using r1 r2 lo hi z by blast
qed

theorem bba_imbalance_bounds_witness:
  "(0::real) < 1 \<and> (0::real) < 3 \<and> bba_imbalance 1 3 = Inr (- (1 / 2))
   \<and> bba_imbalance 3 1 = Inr (1 / 2)"
  using bba_imbalance_bounds [of 1 3] by (simp add: bba_imbalance_def)

section \<open>Warm-up\<close>

lemma wait_for_ws_warmup_Some:
  "wait_for_ws_warmup obs = Some k \<longleftrightarrow>
     0 < k \<and> k \<le> length obs \<and> reaches_break (obs ! (k - 1))
     \<and> list_all (\<lambda>d. \<not> reaches_break d) (take (k - 1) obs)"
proof (induction obs arbitrary: k)
  case Nil
  then show ?case by auto
next
  case (Cons d later)
  show ?case
  proof (cases "reaches_break d")
    case True
    then have w: "wait_for_ws_warmup (d # later) = Some 1"
      by (auto simp: reaches_break_def)
    show ?thesis
    proof (cases "k = 1")
      case True
      with w \<open>reaches_break d\<close> show ?thesis by simp
    next
      case False
      with w \<open>reaches_break d\<close> show ?thesis
        by (cases k) (auto simp: take_Suc_Cons gr0_conv_Suc)
    qed
  next
    case False
    then have w: "wait_for_ws_warmup (d # later) = map_option Suc (wait_for_ws_warmup later)"
      by (auto simp: reaches_break_def)
    show ?thesis
    proof (cases k)
      case 0
      with w show ?thesis by auto
    next
      case (Suc j)
      have "wait_for_ws_warmup (d # later) = Some (Suc j)
              \<longleftrightarrow> wait_for_ws_warmup later = Some j"
        using w by auto
      also have "\<dots> \<longleftrightarrow> 0 < j \<and> j \<le> length later \<and> reaches_break (later ! (j - 1))
                   \<and> list_all (\<lambda>d. \<not> reaches_break d) (take (j - 1) later)"
        by (rule Cons.IH)
      also have "\<dots> \<longleftrightarrow> 0 < Suc j \<and> Suc j \<le> length (d # later)
                   \<and> reaches_break ((d # later) ! (Suc j - 1))
                   \<and> list_all (\<lambda>d. \<not> reaches_break d) (take (Suc j - 1) (d # later))"
        using False by (cases j) auto
      finally show ?thesis using Suc by simp
    qed
  qed
qed

text \<open>
  Claim C8, as the code has it. The wait ends after \<open>k\<close> sleeps exactly when the
  \<open>k\<close>-th poll is the first in which all of these hold at once: at least 100 trades,
  at least 100 OHLCV bars, a ticker with an entry, and a tick size and a lot size that
  are not both zero. Every poll before it fails one of them, and the loop slept and
  polled again.
\<close>

theorem wait_for_ws_warmup_first_ready:
  "wait_for_ws_warmup obs = Some k \<longleftrightarrow>
     0 < k \<and> k \<le> length obs
     \<and> (100 \<le> trades (obs ! (k - 1)) \<and> 100 \<le> ohlcv (obs ! (k - 1))
        \<and> 0 < ticker (obs ! (k - 1))
        \<and> \<not> (data_tick_size (obs ! (k - 1)) = 0 \<and> data_lot_size (obs ! (k - 1)) = 0))
     \<and> list_all (\<lambda>d. trades d < 100 \<or> ohlcv d < 100 \<or> ticker d = 0
                      \<or> (data_tick_size d = 0 \<and> data_lot_size d = 0))
          (take (k - 1) obs)"
proof -
  have a: "reaches_break d \<longleftrightarrow>
             100 \<le> trades d \<and> 100 \<le> ohlcv d \<and> 0 < ticker d
             \<and> \<not> (data_tick_size d = 0 \<and> data_lot_size d = 0)" for d
    by (auto simp: reaches_break_def)
  have b: "(\<lambda>d. \<not> reaches_break d) =
             (\<lambda>d. trades d < 100 \<or> ohlcv d < 100 \<or> ticker d = 0
                  \<or> (data_tick_size d = 0 \<and> data_lot_size d = 0))"
    by (auto simp: reaches_break_def fun_eq_iff)
  show ?thesis
    unfolding wait_for_ws_warmup_Some [of obs k] unfolding b unfolding a ..
qed

theorem wait_for_ws_warmup_first_ready_witness:
  "wait_for_ws_warmup
     [\<lparr>trades = 100, ohlcv = 99, ticker = 1, data_tick_size = 1 / 100,
        data_lot_size = 1 / 1000\<rparr>,
      \<lparr>trades = 100, ohlcv = 100, ticker = 1, data_tick_size = 1 / 100,
        data_lot_size = 1 / 1000\<rparr>] = Some 2"
  using wait_for_ws_warmup_first_ready [of
     "[\<lparr>trades = 100, ohlcv = 99, ticker = 1, data_tick_size = 1 / 100,
         data_lot_size = 1 / 1000\<rparr>,
       \<lparr>trades = 100, ohlcv = 100, ticker = 1, data_tick_size = 1 / 100,
         data_lot_size = 1 / 1000\<rparr>]" 2]
  by simp

text \<open>
  The wait ends in a poll whose tick size is still zero, because the lot size is not:
  the guard compares the pair with \<open>(0.0, 0.0)\<close>.
\<close>

theorem wait_for_ws_warmup_zero_tick_size:
  "wait_for_ws_warmup
     [\<lparr>trades = 100, ohlcv = 100, ticker = 1, data_tick_size = 0,
        data_lot_size = 1 / 1000\<rparr>] = Some 1
   \<and> data_tick_size \<lparr>trades = 100, ohlcv = 100, ticker = 1, data_tick_size = 0,
        data_lot_size = 1 / 1000\<rparr> = 0"
  by simp

section \<open>Loading the quote generator\<close>

text \<open>
  Claim C9. \<open>load_quote_generator\<close> returns a generator exactly when the configured
  name, lowercased, is \<open>plain\<close> or \<open>stinky\<close> (the plain and the stinky generator); for
  every other name it raises \<open>ValueError\<close> and returns none.
\<close>

theorem load_quote_generator_names:
  "(\<exists>gen. snd (load_quote_generator name) = Inr gen)
     = (lower name = ''plain'' \<or> lower name = ''stinky'')
   \<and> snd (load_quote_generator name) =
       (if lower name = ''plain'' then Inr PlainQuoteGenerator
        else if lower name = ''stinky'' then Inr StinkyQuoteGenerator
        else Inl (ValueError (''Invalid quote generator: '' @ lower name)))"
  by (simp add: load_quote_generator_def Let_def)

lemma load_quote_generator_examples:
  "snd (load_quote_generator ''Plain'') = Inr PlainQuoteGenerator"
  "snd (load_quote_generator ''STINKY'') = Inr StinkyQuoteGenerator"
  "snd (load_quote_generator ''plain '') = Inl (ValueError ''Invalid quote generator: plain '')"
  by (simp_all add: load_quote_generator_def lower_def lower_char_def Let_def)

section \<open>Facts about the ladder\<close>

lemma prepare_orders_loop_steps:
  assumes "tick_size g \<noteq> 0" and "lot_size g \<noteq> 0"
  shows "prepare_orders_loop g zs orders = Inr (orders @ concat (map (level_quotes g) zs))"
proof (induction zs arbitrary: orders)
  case Nil
  show ?case by simp
next
  case (Cons z zs)
  obtain bp bs ap as where z: "z = (bp, bs, ap, as)" by (cases z) auto
  show ?case
    using assms
    by (simp add: z Cons.IH and_then_def round_floor_def round_ceil_def level_quotes_def)
qed

lemma length_level_quotes: "length (concat (map (level_quotes g) zs)) = 2 * length zs"
  by (induction zs) (auto simp: level_quotes_def split: prod.splits)

lemma nth_level_quotes:
  "i < length zs \<Longrightarrow>
     concat (map (level_quotes g) zs) ! (2 * i) = level_quotes g (zs ! i) ! 0
     \<and> concat (map (level_quotes g) zs) ! (2 * i + 1) = level_quotes g (zs ! i) ! 1"
proof (induction zs arbitrary: i)
  case Nil
  then show ?case by simp
next
  case (Cons z zs)
  obtain q1 q2 where q: "level_quotes g z = [q1, q2]"
    by (cases z) (auto simp: level_quotes_def)
  show ?case
  proof (cases i)
    case 0
    then show ?thesis by (simp add: q)
  next
    case (Suc j)
    then have "j < length zs" using Cons.prems by simp
    from Cons.IH [OF this] show ?thesis by (simp add: q Suc)
  qed
qed

lemma round_down_le: "0 < t \<Longrightarrow> of_int \<lfloor>x / t\<rfloor> * t \<le> (x::real)"
proof -
  assume t: "0 < t"
  have "of_int \<lfloor>x / t\<rfloor> \<le> x / t" by simp
  then have "of_int \<lfloor>x / t\<rfloor> * t \<le> x / t * t" using t by (simp only: mult_le_cancel_right_pos)
  then show ?thesis using t by simp
qed

lemma round_up_ge: "0 < t \<Longrightarrow> (x::real) \<le> of_int \<lceil>x / t\<rceil> * t"
proof -
  assume t: "0 < t"
  have "x / t \<le> of_int \<lceil>x / t\<rceil>" by simp
  then have "x / t * t \<le> of_int \<lceil>x / t\<rceil> * t" using t by (simp only: mult_le_cancel_right_pos)
  then show ?thesis using t by simp
qed

lemma round_down_mono: "0 < t \<Longrightarrow> x \<le> y \<Longrightarrow> of_int \<lfloor>x / t\<rfloor> * t \<le> of_int \<lfloor>y / t\<rfloor> * (t::real)"
proof -
  assume t: "0 < t" and xy: "x \<le> y"
  then have "x / t \<le> y / t" by (simp add: divide_right_mono)
  then have "\<lfloor>x / t\<rfloor> \<le> \<lfloor>y / t\<rfloor>" by (rule floor_mono)
  then have "(of_int \<lfloor>x / t\<rfloor> :: real) \<le> of_int \<lfloor>y / t\<rfloor>" by simp
  then show ?thesis using t by (simp only: mult_le_cancel_right_pos)
qed

lemma round_up_mono: "0 < t \<Longrightarrow> x \<le> y \<Longrightarrow> of_int \<lceil>x / t\<rceil> * t \<le> of_int \<lceil>y / t\<rceil> * (t::real)"
proof -
  assume t: "0 < t" and xy: "x \<le> y"
  then have "x / t \<le> y / t" by (simp add: divide_right_mono)
  then have "\<lceil>x / t\<rceil> \<le> \<lceil>y / t\<rceil>" by (rule ceiling_mono)
  then have "(of_int \<lceil>x / t\<rceil> :: real) \<le> of_int \<lceil>y / t\<rceil>" by simp
  then show ?thesis using t by (simp only: mult_le_cancel_right_pos)
qed

lemma geom_down:
  assumes "0 < stop" and "stop \<le> start" and "i \<le> j"
  shows "start * (stop / start) powr (real j / real m) \<le> start * (stop / start) powr (real i / real m)"
    and "start * (stop / start) powr (real i / real m) \<le> start"
proof -
  have s: "0 < start" using assms by simp
  have q: "0 \<le> stop / start" "stop / start \<le> 1" using assms s by simp_all
  have e: "real i / real m \<le> real j / real m" using assms by (simp add: divide_right_mono)
  have "(stop / start) powr (real j / real m) \<le> (stop / start) powr (real i / real m)"
    using e q by (rule powr_mono')
  then show "start * (stop / start) powr (real j / real m) \<le> start * (stop / start) powr (real i / real m)"
    using s by simp
  have "(stop / start) powr (real i / real m) \<le> (stop / start) powr 0"
    using q by (intro powr_mono') simp_all
  also have "\<dots> \<le> 1" using q by simp
  finally show "start * (stop / start) powr (real i / real m) \<le> start"
    using s by simp
qed

lemma geom_up:
  assumes "0 < start" and "start \<le> stop" and "i \<le> j"
  shows "start * (stop / start) powr (real i / real m) \<le> start * (stop / start) powr (real j / real m)"
    and "start \<le> start * (stop / start) powr (real i / real m)"
proof -
  have q: "1 \<le> stop / start" using assms by simp
  have e: "real i / real m \<le> real j / real m" using assms by (simp add: divide_right_mono)
  have "(stop / start) powr (real i / real m) \<le> (stop / start) powr (real j / real m)"
    using e q by (rule powr_mono)
  then show "start * (stop / start) powr (real i / real m) \<le> start * (stop / start) powr (real j / real m)"
    using assms by simp
  have "(stop / start) powr 0 \<le> (stop / start) powr (real i / real m)"
    using q by (intro powr_mono) simp_all
  moreover have "stop \<noteq> 0" "start \<noteq> 0" using assms by auto
  ultimately have "1 \<le> (stop / start) powr (real i / real m)" by simp
  then show "start \<le> start * (stop / start) powr (real i / real m)"
    using assms by simp
qed

lemma aggressiveness_nonneg_skew:
  assumes "params g ''aggressiveness'' = Some a" and "0 \<le> skew"
  shows "aggressiveness g skew = Inr (a * sqrt skew)"
proof (cases "skew = 0")
  case True
  then show ?thesis using assms by (simp add: aggressiveness_def param_def and_then_def float_pow_def)
next
  case False
  then have "0 < skew" using assms by simp
  then show ?thesis
    using assms by (simp add: aggressiveness_def param_def and_then_def float_pow_def powr_half_sqrt)
qed

lemma clipped_r_pos: "0 < clipped_r skew"
  by (simp add: clipped_r_def nbclip_def min_def max_def)

lemma powered_r_clipped: "powered_r (clipped_r skew) aggr = Inr (0.5 + clipped_r skew powr (2 + aggr))"
  using clipped_r_pos [of skew] by (simp add: powered_r_def float_pow_def and_then_def)

lemma length_generate_geometric_weights: "length (generate_geometric_weights num r reverse) = num"
  by (simp add: generate_geometric_weights_def Let_def)

lemma nbgeomspace_pos:
  "0 < start \<Longrightarrow> 0 < stop \<Longrightarrow>
     nbgeomspace start stop n =
       Inr (map (\<lambda>i. start * (stop / start) powr (real i / real (n - 1))) [0..<n])"
  by (simp add: nbgeomspace_def)

lemma float_pow_pos: "0 < x \<Longrightarrow> float_pow x y = Inr (x powr y)"
  by (simp add: float_pow_def)

lemma generate_quotes_as_prepare_orders:
  assumes a: "params g ''aggressiveness'' = Some a"
    and skew: "0 \<le> skew" and spread: "0 < spread"
    and low: "spread powr 1.5 < mid g - spread / 2 * (1 - a * sqrt skew)"
  shows "\<exists>bid_sizes ask_sizes.
           length bid_sizes = total_orders g div 2 \<and> length ask_sizes = total_orders g div 2
           \<and> generate_quotes g skew spread =
               prepare_orders g
                 (map (\<lambda>i. (mid g - spread / 2 * (1 - a * sqrt skew))
                             * ((mid g - spread / 2 * (1 - a * sqrt skew) - spread powr 1.5)
                                / (mid g - spread / 2 * (1 - a * sqrt skew)))
                               powr (real i / real (total_orders g div 2 - 1)))
                    [0..<total_orders g div 2])
                 bid_sizes
                 (map (\<lambda>i. (mid g - spread / 2 * (1 - a * sqrt skew) + spread)
                             * ((mid g - spread / 2 * (1 - a * sqrt skew) + spread
                                 + spread powr 1.5)
                                / (mid g - spread / 2 * (1 - a * sqrt skew) + spread))
                               powr (real i / real (total_orders g div 2 - 1)))
                    [0..<total_orders g div 2])
                 ask_sizes"
proof -
  define b where "b = mid g - spread / 2 * (1 - a * sqrt skew)"
  define w where "w = spread powr 1.5"
  have w: "0 < w" using spread by (simp add: w_def)
  have bw: "0 < b - w" using low by (simp add: b_def w_def)
  have b: "0 < b" using bw w by simp
  have c: "0 < b + spread" "0 < b + spread + w" using b w spread by simp_all
  have "float_pow spread 1.5 = Inr w" using spread by (simp add: float_pow_pos w_def)
  then have fw: "float_pow spread (3 / 2) = Inr w" by simp
  have ag: "aggressiveness g skew = Inr (a * sqrt skew)"
    using a skew by (rule aggressiveness_nonneg_skew)
  show ?thesis
  proof (cases "0 < skew")
    case True
    have bp: "positive_best_prices g spread (a * sqrt skew) = (b, b + spread)"
      by (simp add: positive_best_prices_def b_def Let_def)
    have "generate_quotes g skew spread = generate_positive_skew_quotes g skew spread"
      using True by (simp add: generate_quotes_def)
    also have "\<dots> = prepare_orders g
        (map (\<lambda>i. b * ((b - w) / b) powr (real i / real (total_orders g div 2 - 1)))
           [0..<total_orders g div 2])
        (map (\<lambda>w. max_position g * w)
           (generate_geometric_weights (total_orders g div 2) (clipped_r skew) True))
        (map (\<lambda>i. (b + spread) * ((b + spread + w) / (b + spread))
                     powr (real i / real (total_orders g div 2 - 1)))
           [0..<total_orders g div 2])
        (map (\<lambda>w. max_position g * w)
           (generate_geometric_weights (total_orders g div 2)
              (0.5 + clipped_r skew powr (2 + a * sqrt skew)) True))"
      using b bw c
      by (simp add: generate_positive_skew_quotes_def ag bp fw and_then_def nbgeomspace_pos
          powered_r_clipped Let_def)
    finally show ?thesis
      unfolding b_def [symmetric] w_def [symmetric]
      by (intro exI conjI) (simp_all add: length_generate_geometric_weights)
  next
    case False
    then have z: "skew = 0" using skew by simp
    have bp: "negative_best_prices g spread 0 = (b, b + spread)"
      by (simp add: negative_best_prices_def b_def z Let_def)
    have ag0: "aggressiveness g 0 = Inr 0" using ag z by simp
    have "generate_quotes g skew spread = generate_negative_skew_quotes g 0 spread"
      using z by (simp add: generate_quotes_def)
    also have "\<dots> = prepare_orders g
        (map (\<lambda>i. b * ((b - w) / b) powr (real i / real (total_orders g div 2 - 1)))
           [0..<total_orders g div 2])
        (map (\<lambda>w. max_position g * w)
           (generate_geometric_weights (total_orders g div 2)
              (0.5 + clipped_r 0 powr (2 + 0)) True))
        (map (\<lambda>i. (b + spread) * ((b + spread + w) / (b + spread))
                     powr (real i / real (total_orders g div 2 - 1)))
           [0..<total_orders g div 2])
        (map (\<lambda>w. max_position g * w)
           (generate_geometric_weights (total_orders g div 2) (clipped_r 0) True))"
      using b bw c
      by (simp add: generate_negative_skew_quotes_def ag0 bp fw and_then_def nbgeomspace_pos
          powered_r_clipped Let_def)
    finally show ?thesis
      unfolding b_def [symmetric] w_def [symmetric]
      by (intro exI conjI) (simp_all add: length_generate_geometric_weights)
  qed
qed

lemma prepare_orders_quotes:
  assumes t: "tick_size g \<noteq> 0" and l: "lot_size g \<noteq> 0"
    and len: "length bid_prices = n" "length bid_sizes = n" "length ask_prices = n"
      "length ask_sizes = n"
  shows "\<exists>qs. prepare_orders g bid_prices bid_sizes ask_prices ask_sizes = Inr qs
           \<and> length qs = 2 * n
           \<and> (\<forall>i<n. side (qs ! (2 * i)) = 0 \<and> side (qs ! (2 * i + 1)) = 1
                 \<and> price (qs ! (2 * i)) =
                     of_int \<lfloor>bid_prices ! i / tick_size g\<rfloor> * tick_size g
                 \<and> price (qs ! (2 * i + 1)) =
                     of_int \<lceil>ask_prices ! i / tick_size g\<rceil> * tick_size g)"
proof -
  define zs where "zs = zip bid_prices (zip bid_sizes (zip ask_prices ask_sizes))"
  define qs where "qs = concat (map (level_quotes g) zs)"
  have lz: "length zs = n" using len by (simp add: zs_def)
  have run: "prepare_orders g bid_prices bid_sizes ask_prices ask_sizes = Inr qs"
    using prepare_orders_loop_steps [OF t l, of zs "[]"]
    by (simp add: prepare_orders_def zs_def qs_def)
  have lq: "length qs = 2 * n"
    by (simp add: qs_def length_level_quotes lz)
  have at: "side (qs ! (2 * i)) = 0 \<and> side (qs ! (2 * i + 1)) = 1
            \<and> price (qs ! (2 * i)) = of_int \<lfloor>bid_prices ! i / tick_size g\<rfloor> * tick_size g
            \<and> price (qs ! (2 * i + 1)) = of_int \<lceil>ask_prices ! i / tick_size g\<rceil> * tick_size g"
    if i: "i < n" for i
  proof -
    have zi: "zs ! i = (bid_prices ! i, bid_sizes ! i, ask_prices ! i, ask_sizes ! i)"
      using i len by (simp add: zs_def)
    have "i < length zs" using i lz by simp
    from nth_level_quotes [OF this, of g] show ?thesis
      by (simp add: qs_def zi level_quotes_def generate_single_quote_def)
  qed
  show ?thesis using run lq at by blast
qed

section \<open>The ladder that generate\_quotes returns\<close>

text \<open>
  Claim C2, as the code has it. For an even \<open>total_orders\<close>, a spread above zero and a
  skew that is not negative, with a tick size above zero, a lot size that is not zero
  and a lowest bid target \<open>best_bid - spread ** 1.5\<close> above zero, \<open>generate_quotes\<close>
  returns exactly \<open>total_orders\<close> quotes, a bid at every even index and an ask at every
  odd one. When the effective aggressiveness \<open>aggressiveness * sqrt(skew)\<close> is at most 1
  in absolute value, every bid and every ask is at least as far from the mid as the
  one of the pair before it.
\<close>

theorem generate_quotes_ladder:
  assumes a: "params g ''aggressiveness'' = Some a"
    and ev: "even (total_orders g)"
    and skew: "0 \<le> skew" and spread: "0 < spread"
    and t: "0 < tick_size g" and l: "lot_size g \<noteq> 0"
    and low: "spread powr 1.5 < mid g - spread / 2 * (1 - a * sqrt skew)"
  shows "\<exists>qs. generate_quotes g skew spread = Inr qs
           \<and> length qs = total_orders g
           \<and> (\<forall>i<length qs. side (qs ! i) = (if even i then 0 else 1))
           \<and> (\<bar>a * sqrt skew\<bar> \<le> 1 \<longrightarrow>
                (\<forall>k. Suc k < total_orders g div 2 \<longrightarrow>
                   \<bar>price (qs ! (2 * k)) - mid g\<bar> \<le> \<bar>price (qs ! (2 * Suc k)) - mid g\<bar>
                   \<and> \<bar>price (qs ! (2 * k + 1)) - mid g\<bar>
                       \<le> \<bar>price (qs ! (2 * Suc k + 1)) - mid g\<bar>))"
proof -
  define n where "n = total_orders g div 2"
  define b where "b = mid g - spread / 2 * (1 - a * sqrt skew)"
  define w where "w = spread powr 1.5"
  define bp where "bp = (\<lambda>i. b * ((b - w) / b) powr (real i / real (n - 1)))"
  define ap where "ap = (\<lambda>i. (b + spread) * ((b + spread + w) / (b + spread))
                               powr (real i / real (n - 1)))"
  have w: "0 < w" using spread by (simp add: w_def)
  have bw: "0 < b - w" using low by (simp add: b_def w_def)
  have b: "0 < b" using bw w by simp
  obtain bid_sizes ask_sizes where
    lb: "length bid_sizes = n" and la: "length ask_sizes = n"
    and gq: "generate_quotes g skew spread =
               prepare_orders g (map bp [0..<n]) bid_sizes (map ap [0..<n]) ask_sizes"
    using generate_quotes_as_prepare_orders [OF a skew spread low]
    unfolding n_def [symmetric] b_def [symmetric] w_def [symmetric] bp_def ap_def
    by blast
  have t0: "tick_size g \<noteq> 0" using t by simp
  obtain qs where run: "prepare_orders g (map bp [0..<n]) bid_sizes (map ap [0..<n]) ask_sizes
                          = Inr qs"
    and lq: "length qs = 2 * n"
    and at: "\<And>i. i < n \<Longrightarrow> side (qs ! (2 * i)) = 0 \<and> side (qs ! (2 * i + 1)) = 1
                 \<and> price (qs ! (2 * i)) = of_int \<lfloor>bp i / tick_size g\<rfloor> * tick_size g
                 \<and> price (qs ! (2 * i + 1)) = of_int \<lceil>ap i / tick_size g\<rceil> * tick_size g"
    using prepare_orders_quotes [OF t0 l, of "map bp [0..<n]" n bid_sizes "map ap [0..<n]"
        ask_sizes] lb la
    by auto
  have total: "2 * n = total_orders g" using ev by (auto simp: n_def)
  have sides: "side (qs ! i) = (if even i then 0 else 1)" if i: "i < length qs" for i
  proof (cases "even i")
    case True
    then obtain k where k: "i = 2 * k" by (auto elim: evenE)
    then have "k < n" using i lq by simp
    from at [OF this] show ?thesis using True k by simp
  next
    case False
    then obtain k where k: "i = 2 * k + 1" by (auto elim: oddE)
    then have "k < n" using i lq by simp
    from at [OF this] show ?thesis using False k by simp
  qed
  have order: "\<bar>price (qs ! (2 * k)) - mid g\<bar> \<le> \<bar>price (qs ! (2 * Suc k)) - mid g\<bar>
               \<and> \<bar>price (qs ! (2 * k + 1)) - mid g\<bar> \<le> \<bar>price (qs ! (2 * Suc k + 1)) - mid g\<bar>"
    if ag: "\<bar>a * sqrt skew\<bar> \<le> 1" and k: "Suc k < n" for k
  proof -
    have k0: "k < n" using k by simp
    have hs: "0 \<le> spread / 2" using spread by simp
    have "0 \<le> spread / 2 * (1 - a * sqrt skew)"
      using ag hs by (intro mult_nonneg_nonneg) auto
    then have b_mid: "b \<le> mid g" by (simp add: b_def)
    have "0 \<le> spread / 2 * (1 + a * sqrt skew)"
      using ag hs by (intro mult_nonneg_nonneg) auto
    then have c_mid: "mid g \<le> b + spread" by (simp add: b_def algebra_simps)
    have bd: "bp (Suc k) \<le> bp k" "bp k \<le> b"
      using geom_down [of "b - w" b k "Suc k" "n - 1"] bw w by (simp_all add: bp_def)
    have au: "ap k \<le> ap (Suc k)" "b + spread \<le> ap k"
      using geom_up [of "b + spread" "b + spread + w" k "Suc k" "n - 1"] b w spread
      by (simp_all add: ap_def)
    have p0: "price (qs ! (2 * k)) = of_int \<lfloor>bp k / tick_size g\<rfloor> * tick_size g"
      and p1: "price (qs ! (2 * k + 1)) = of_int \<lceil>ap k / tick_size g\<rceil> * tick_size g"
      using at [OF k0] by simp_all
    have p2: "price (qs ! (2 * Suc k)) = of_int \<lfloor>bp (Suc k) / tick_size g\<rfloor> * tick_size g"
      and p3: "price (qs ! (2 * Suc k + 1)) = of_int \<lceil>ap (Suc k) / tick_size g\<rceil> * tick_size g"
      using at [OF k] by simp_all
    have "price (qs ! (2 * Suc k)) \<le> price (qs ! (2 * k))"
      unfolding p0 p2 using t bd(1) by (rule round_down_mono)
    moreover have "price (qs ! (2 * k)) \<le> mid g"
      unfolding p0 using round_down_le [OF t, of "bp k"] bd(2) b_mid by linarith
    moreover have "price (qs ! (2 * k + 1)) \<le> price (qs ! (2 * Suc k + 1))"
      unfolding p1 p3 using t au(1) by (rule round_up_mono)
    moreover have "mid g \<le> price (qs ! (2 * k + 1))"
      unfolding p1 using round_up_ge [OF t, of "ap k"] au(2) c_mid by linarith
    ultimately show ?thesis by simp
  qed
  show ?thesis
    using gq run lq total sides order unfolding n_def by (intro exI [of _ qs]) auto
qed

theorem generate_quotes_ladder_witness:
  "\<exists>qs. generate_quotes \<lparr>params = [''aggressiveness'' \<mapsto> 1 / 2], mid = 100,
            inventory_delta = 0, tick_size = 1 / 100, lot_size = 1 / 1000, total_orders = 4,
            max_position = 10\<rparr> 1 1 = Inr qs
        \<and> length qs = 4
        \<and> side (qs ! 0) = 0 \<and> side (qs ! 1) = 1 \<and> side (qs ! 2) = 0 \<and> side (qs ! 3) = 1
        \<and> \<bar>price (qs ! 0) - 100\<bar> \<le> \<bar>price (qs ! 2) - 100\<bar>
        \<and> \<bar>price (qs ! 1) - 100\<bar> \<le> \<bar>price (qs ! 3) - 100\<bar>"
proof -
  let ?g = "\<lparr>params = [''aggressiveness'' \<mapsto> 1 / 2], mid = 100,
            inventory_delta = 0, tick_size = 1 / 100, lot_size = 1 / 1000, total_orders = 4,
            max_position = 10\<rparr>"
  have "\<exists>qs. generate_quotes ?g 1 1 = Inr qs
           \<and> length qs = total_orders ?g
           \<and> (\<forall>i<length qs. side (qs ! i) = (if even i then 0 else 1))
           \<and> (\<bar>1 / 2 * sqrt 1\<bar> \<le> 1 \<longrightarrow>
                (\<forall>k. Suc k < total_orders ?g div 2 \<longrightarrow>
                   \<bar>price (qs ! (2 * k)) - mid ?g\<bar> \<le> \<bar>price (qs ! (2 * Suc k)) - mid ?g\<bar>
                   \<and> \<bar>price (qs ! (2 * k + 1)) - mid ?g\<bar>
                       \<le> \<bar>price (qs ! (2 * Suc k + 1)) - mid ?g\<bar>))"
    by (rule generate_quotes_ladder) simp_all
  then obtain qs where r: "generate_quotes ?g 1 1 = Inr qs" and n: "length qs = 4"
    and s: "\<And>i. i < 4 \<Longrightarrow> side (qs ! i) = (if even i then 0 else 1)"
    and o: "\<And>k. Suc k < 2 \<Longrightarrow>
                   \<bar>price (qs ! (2 * k)) - 100\<bar> \<le> \<bar>price (qs ! (2 * Suc k)) - 100\<bar>
                   \<and> \<bar>price (qs ! (2 * k + 1)) - 100\<bar>
                       \<le> \<bar>price (qs ! (2 * Suc k + 1)) - 100\<bar>"
    by auto
  show ?thesis
    using r n s [of 0] s [of 1] s [of 2] s [of 3] o [of 0] by simp
qed

text \<open>
  With an aggressiveness of 3 and a skew of 1 the best bid is above the mid: the
  four prices are the bid 101, the ask 102, the bid 100 and the ask 103 around the
  mid 100, so the second bid is closer to the mid than the first.
\<close>

lemma upt_two: "[0..<2] = [0, 1]" by (simp add: upt_rec)

lemmas ladder_defs = generate_quotes_def generate_positive_skew_quotes_def
  generate_negative_skew_quotes_def aggressiveness_def param_def and_then_def float_pow_def
  positive_best_prices_def negative_best_prices_def nbgeomspace_def powered_r_def
  clipped_r_def nbclip_def generate_geometric_weights_def prepare_orders_def round_floor_def
  round_ceil_def generate_single_quote_def Let_def

theorem generate_quotes_crossing_bid:
  "map_sum id (map price)
     (generate_quotes \<lparr>params = [''aggressiveness'' \<mapsto> 3], mid = 100,
        inventory_delta = 0, tick_size = 1, lot_size = 1, total_orders = 4,
        max_position = 10\<rparr> 1 1) = Inr [101, 102, 100, 103]"
  by (simp add: ladder_defs upt_two)

section \<open>Negative skew\<close>

text \<open>
  Claim C3. The negative branch raises the skew itself to the power 0.5 (line 180).
  For every skew below zero that power is no real number, and no list of quotes with
  real prices comes back.
\<close>

theorem generate_quotes_negative_skew:
  assumes "skew < 0" and "params g ''aggressiveness'' = Some a"
  shows "float_pow skew 0.5 = Inl NonReal
       \<and> aggressiveness g skew = Inl NonReal
       \<and> generate_negative_skew_quotes g skew spread = Inl NonReal
       \<and> generate_quotes g skew spread = Inl NonReal"
proof -
  have "\<lfloor>1 / 2 :: real\<rfloor> = 0" by simp
  then have half: "(1 / 2 :: real) \<noteq> of_int \<lfloor>1 / 2 :: real\<rfloor>" by simp
  have root: "float_pow skew 0.5 = Inl NonReal"
    using assms(1) half by (simp add: float_pow_def)
  then have ag: "aggressiveness g skew = Inl NonReal"
    using assms(2) by (simp add: aggressiveness_def param_def and_then_def)
  then have neg: "generate_negative_skew_quotes g skew spread = Inl NonReal"
    by (simp add: generate_negative_skew_quotes_def and_then_def)
  then have "generate_quotes g skew spread = Inl NonReal"
    using assms(1) by (simp add: generate_quotes_def)
  with root ag neg show ?thesis by blast
qed

text \<open>At the skew -0.25, with an aggressiveness of 0.5, a spread of 1 and a mid of 100.\<close>

theorem generate_quotes_negative_skew_witness:
  "float_pow (- (1 / 4)) 0.5 = Inl NonReal
   \<and> generate_quotes \<lparr>params = [''aggressiveness'' \<mapsto> 1 / 2], mid = 100,
        inventory_delta = 0, tick_size = 1 / 100, lot_size = 1 / 1000, total_orders = 4,
        max_position = 10\<rparr> (- (1 / 4)) 1 = Inl NonReal"
  using generate_quotes_negative_skew [of "- (1 / 4)" "\<lparr>params = [''aggressiveness'' \<mapsto> 1 / 2],
        mid = 100, inventory_delta = 0, tick_size = 1 / 100, lot_size = 1 / 1000,
        total_orders = 4, max_position = 10\<rparr>" "1 / 2" 1]
  by simp

section \<open>The second size ratio\<close>

lemma clipped_r_positive_skew: "0 < skew \<Longrightarrow> 1 / 2 < clipped_r skew \<and> clipped_r skew \<le> 1"
  by (auto simp: clipped_r_def nbclip_def min_def max_def)

text \<open>
  Claim C5, as the code has it. On the positive branch, for a skew above zero and an
  aggressiveness that is not negative, the ask side's ratio
  \<open>0.5 + r ** (2 + aggressiveness * sqrt(skew))\<close> is above 0.5 and at most
  \<open>0.5 + r\<^sup>2\<close>, so at most 1.5. It is at most the bid side's ratio \<open>r\<close> exactly when
  \<open>r ** (2 + aggressiveness * sqrt(skew)) \<le> r - 0.5\<close>; with an aggressiveness of zero
  it is above \<open>r\<close>.
\<close>

theorem powered_r_bounds:
  assumes a: "params g ''aggressiveness'' = Some a"
    and skew: "0 < skew" and a0: "0 \<le> a"
  shows "\<exists>aggr ask_r. aggressiveness g skew = Inr aggr
           \<and> powered_r (clipped_r skew) aggr = Inr ask_r
           \<and> ask_r = 1 / 2 + clipped_r skew powr (2 + a * sqrt skew)
           \<and> 1 / 2 < ask_r \<and> ask_r \<le> 1 / 2 + (clipped_r skew)\<^sup>2 \<and> ask_r \<le> 3 / 2
           \<and> (ask_r \<le> clipped_r skew)
               = (clipped_r skew powr (2 + a * sqrt skew) \<le> clipped_r skew - 1 / 2)
           \<and> (a = 0 \<longrightarrow> clipped_r skew < ask_r)"
proof -
  define r where "r = clipped_r skew"
  define p where "p = 2 + a * sqrt skew"
  define v where "v = 1 / 2 + r powr p"
  have r: "1 / 2 < r" "r \<le> 1" using clipped_r_positive_skew [OF skew] by (simp_all add: r_def)
  have r0: "0 < r" using r by simp
  have p: "2 \<le> p" using a0 skew by (simp add: p_def)
  have ag: "aggressiveness g skew = Inr (a * sqrt skew)"
    using a skew by (intro aggressiveness_nonneg_skew) simp_all
  have pr: "powered_r (clipped_r skew) (a * sqrt skew) = Inr v"
    by (simp add: powered_r_clipped v_def r_def p_def)
  have lo: "1 / 2 < v" using r0 by (simp add: v_def)
  have "r powr p \<le> r powr 2" using p r0 r by (intro powr_mono') simp_all
  also have "r powr 2 = r\<^sup>2" using r0 by simp
  finally have sq: "r powr p \<le> r\<^sup>2" .
  then have hi: "v \<le> 1 / 2 + r\<^sup>2" by (simp add: v_def)
  have "r\<^sup>2 \<le> 1" using r0 r by (simp add: power_le_one)
  then have hi2: "v \<le> 3 / 2" using hi by simp
  have iff: "(v \<le> r) = (r powr p \<le> r - 1 / 2)" by (auto simp: v_def)
  have zero: "r < v" if "a = 0"
  proof -
    have "v = 1 / 2 + r\<^sup>2" using that r0 by (simp add: v_def p_def)
    moreover have "0 < (r - 1 / 2)\<^sup>2 + 1 / 4"
      by (intro add_nonneg_pos) simp_all
    then have "r < 1 / 2 + r\<^sup>2" by (simp add: power2_eq_square algebra_simps)
    ultimately show ?thesis by simp
  qed
  show ?thesis
    using ag pr lo hi hi2 iff zero unfolding v_def r_def p_def by blast
qed

theorem powered_r_bounds_witness:
  "aggressiveness \<lparr>params = [''aggressiveness'' \<mapsto> 0], mid = 100,
        inventory_delta = 0, tick_size = 1 / 100, lot_size = 1 / 1000, total_orders = 4,
        max_position = 10\<rparr> (1 / 4) = Inr 0
   \<and> powered_r (clipped_r (1 / 4)) 0 = Inr (17 / 16)
   \<and> clipped_r (1 / 4) < 17 / 16"
proof -
  let ?g = "\<lparr>params = [''aggressiveness'' \<mapsto> 0], mid = 100,
        inventory_delta = 0, tick_size = 1 / 100, lot_size = 1 / 1000, total_orders = 4,
        max_position = 10\<rparr>"
  have r: "clipped_r (1 / 4) = 3 / 4" by (simp add: clipped_r_def nbclip_def)
  have "params ?g ''aggressiveness'' = Some 0" by simp
  from powered_r_bounds [OF this, of "1 / 4"]
  obtain aggr ask_r where "aggressiveness ?g (1 / 4) = Inr aggr"
    and "powered_r (clipped_r (1 / 4)) aggr = Inr ask_r"
    and "ask_r = 1 / 2 + clipped_r (1 / 4) powr (2 + 0 * sqrt (1 / 4))"
    and "clipped_r (1 / 4) < ask_r"
    by auto
  moreover have "aggressiveness ?g (1 / 4) = Inr 0"
    by (simp add: aggressiveness_def param_def and_then_def float_pow_def)
  ultimately show ?thesis by (simp add: r power2_eq_square)
qed

text \<open>
  With an aggressiveness of 2 and a skew of 0.25 the bid side's ratio is 0.75 and the
  ask side's is 59/64, which is larger.
\<close>

theorem powered_r_above_clipped_r:
  "aggressiveness \<lparr>params = [''aggressiveness'' \<mapsto> 2], mid = 100,
        inventory_delta = 0, tick_size = 1 / 100, lot_size = 1 / 1000, total_orders = 4,
        max_position = 10\<rparr> (1 / 4) = Inr 1
   \<and> clipped_r (1 / 4) = 3 / 4
   \<and> powered_r (clipped_r (1 / 4)) 1 = Inr (59 / 64)
   \<and> \<not> (59 / 64 \<le> (3 / 4 :: real))"
  by (simp add: aggressiveness_def param_def and_then_def float_pow_def powr_half_sqrt
      real_sqrt_divide clipped_r_def nbclip_def powered_r_def power3_eq_cube)

section \<open>The boundary at skew zero\<close>

text \<open>
  Claim C7. At a skew of zero both branches compute an aggressiveness of zero, and
  with it the best bid \<open>mid - spread / 2\<close> and the best ask \<open>mid + spread / 2\<close>. The
  positive branch's best prices (its aggressiveness is \<open>aggressiveness * sqrt(skew)\<close>)
  tend to these as the skew falls to zero.
\<close>

theorem best_prices_at_zero_skew:
  assumes "params g ''aggressiveness'' = Some a"
  shows "aggressiveness g 0 = Inr 0
       \<and> positive_best_prices g spread 0 = (mid g - spread / 2, mid g + spread / 2)
       \<and> negative_best_prices g spread 0 = (mid g - spread / 2, mid g + spread / 2)
       \<and> (0 < skew \<longrightarrow> aggressiveness g skew = Inr (a * sqrt skew))
       \<and> ((\<lambda>skew. positive_best_prices g spread (a * sqrt skew))
            \<longlongrightarrow> negative_best_prices g spread 0) (at_right 0)"
proof -
  have ag: "aggressiveness g 0 = Inr 0"
    using aggressiveness_nonneg_skew [OF assms, of 0] by simp
  have pos: "positive_best_prices g spread 0 = (mid g - spread / 2, mid g + spread / 2)"
    by (simp add: positive_best_prices_def Let_def)
  have neg: "negative_best_prices g spread 0 = (mid g - spread / 2, mid g + spread / 2)"
    by (simp add: negative_best_prices_def Let_def)
  have root: "((\<lambda>skew. a * sqrt skew) \<longlongrightarrow> 0) (at_right 0)"
    by (auto intro!: tendsto_eq_intros)
  have lim0: "((\<lambda>skew. (mid g - spread / 2 * (1 - a * sqrt skew),
                    mid g - spread / 2 * (1 - a * sqrt skew) + spread))
          \<longlongrightarrow> (mid g - spread / 2 * (1 - 0), mid g - spread / 2 * (1 - 0) + spread))
          (at_right 0)"
    by (intro tendsto_intros root)
  have point: "(mid g - spread / 2 * (1 - 0), mid g - spread / 2 * (1 - 0) + spread)
                 = negative_best_prices g spread 0"
    by (simp add: neg)
  have path: "(\<lambda>skew. positive_best_prices g spread (a * sqrt skew))
                = (\<lambda>skew. (mid g - spread / 2 * (1 - a * sqrt skew),
                            mid g - spread / 2 * (1 - a * sqrt skew) + spread))"
    by (simp add: positive_best_prices_def Let_def)
  have lim: "((\<lambda>skew. positive_best_prices g spread (a * sqrt skew))
            \<longlongrightarrow> negative_best_prices g spread 0) (at_right 0)"
    unfolding path point [symmetric] by (rule lim0)
  have above: "aggressiveness g skew = Inr (a * sqrt skew)" if "0 < skew"
    using that by (intro aggressiveness_nonneg_skew [OF assms]) simp
  show ?thesis using ag pos neg above lim by blast
qed

theorem best_prices_at_zero_skew_witness:
  "aggressiveness \<lparr>params = [''aggressiveness'' \<mapsto> 1 / 2], mid = 100,
        inventory_delta = 0, tick_size = 1 / 100, lot_size = 1 / 1000, total_orders = 4,
        max_position = 10\<rparr> 0 = Inr 0
   \<and> positive_best_prices \<lparr>params = [''aggressiveness'' \<mapsto> 1 / 2], mid = 100,
        inventory_delta = 0, tick_size = 1 / 100, lot_size = 1 / 1000, total_orders = 4,
        max_position = 10\<rparr> 1 0 = (199 / 2, 201 / 2)
   \<and> negative_best_prices \<lparr>params = [''aggressiveness'' \<mapsto> 1 / 2], mid = 100,
        inventory_delta = 0, tick_size = 1 / 100, lot_size = 1 / 1000, total_orders = 4,
        max_position = 10\<rparr> 1 0 = (199 / 2, 201 / 2)
   \<and> aggressiveness \<lparr>params = [''aggressiveness'' \<mapsto> 1 / 2], mid = 100,
        inventory_delta = 0, tick_size = 1 / 100, lot_size = 1 / 1000, total_orders = 4,
        max_position = 10\<rparr> 1 = Inr (1 / 2)"
  using best_prices_at_zero_skew [of "\<lparr>params = [''aggressiveness'' \<mapsto> 1 / 2], mid = 100,
        inventory_delta = 0, tick_size = 1 / 100, lot_size = 1 / 1000, total_orders = 4,
        max_position = 10\<rparr>" "1 / 2" 1 1]
  by simp

end
